theory Spec2Isabelle
  imports Complex_Main "HOL-Library.Sublist"
begin

section \<open>The streaming client of bydfipy (\<^verbatim>\<open>bydfipy/websocket.py\<close>)\<close>

text \<open>
  The theory embeds \<^verbatim>\<open>BydfiWebSocketClient\<close>. Every coroutine of the class is a function
  on an explicit client state. What the class does to the outside world (opening the
  transport, sending a frame, closing the transport, creating a task) is appended to a
  trace kept in the state, and what the outside world decides (whether
  \<^verbatim>\<open>websockets.connect\<close> succeeds, what the clock reads) is read from the state.
\<close>

subsection \<open>Values\<close>

text \<open>What \<^verbatim>\<open>json.loads\<close> returns: a Python value built from JSON.\<close>

datatype json =
    JNull
  | JBool bool
  | JNum int
  | JStr string
  | JArr "json list"
  | JObj "(string \<times> json) list"

text \<open>The exceptions that occur in the modelled code.\<close>

datatype error =
    BydfiValueError
  | BydfiRequestError
  | JSONDecodeError
  | TypeError
  | AttributeError
  | ConnectionClosed

text \<open>
  \<^verbatim>\<open>BydfiRequestError\<close> ("connection issues, timeout") and the transport library's
  \<^verbatim>\<open>ConnectionClosed\<close> are the transport errors; \<^verbatim>\<open>BydfiValueError\<close> is the error for
  invalid parameters.
\<close>

fun is_transport_error :: "error \<Rightarrow> bool" where
  "is_transport_error BydfiRequestError = True"
| "is_transport_error ConnectionClosed = True"
| "is_transport_error _ = False"

subsection \<open>Python's operators on decoded values\<close>

text \<open>\<^verbatim>\<open>p in t\<close> on two strings: \<open>p\<close> occurs in \<open>t\<close> as a contiguous run.\<close>

fun starts_with :: "string \<Rightarrow> string \<Rightarrow> bool" where
  "starts_with [] t = True"
| "starts_with (c # p) [] = False"
| "starts_with (c # p) (d # t) = (c = d \<and> starts_with p t)"

fun str_in :: "string \<Rightarrow> string \<Rightarrow> bool" where
  "str_in p [] = (p = [])"
| "str_in p (d # t) = (starts_with p (d # t) \<or> str_in p t)"

text \<open>
  \<^verbatim>\<open>key in v\<close> for a string \<open>key\<close>: key membership on a dict, element membership on a
  list, substring on a string, and \<^verbatim>\<open>TypeError\<close> on \<^verbatim>\<open>None\<close>, a bool or a number.
\<close>

fun py_in :: "string \<Rightarrow> json \<Rightarrow> error + bool" where
  "py_in k (JObj kvs) = Inr (map_of kvs k \<noteq> None)"
| "py_in k (JArr xs) = Inr (List.member xs (JStr k))"
| "py_in k (JStr t) = Inr (str_in k t)"
| "py_in k JNull = Inl TypeError"
| "py_in k (JBool b) = Inl TypeError"
| "py_in k (JNum n) = Inl TypeError"

text \<open>\<^verbatim>\<open>v.get(key, default)\<close>: only a dict has the method.\<close>

fun py_get :: "json \<Rightarrow> string \<Rightarrow> json \<Rightarrow> error + json" where
  "py_get (JObj kvs) k d = Inr (case map_of kvs k of Some v \<Rightarrow> v | None \<Rightarrow> d)"
| "py_get JNull k d = Inl AttributeError"
| "py_get (JBool b) k d = Inl AttributeError"
| "py_get (JNum n) k d = Inl AttributeError"
| "py_get (JStr t) k d = Inl AttributeError"
| "py_get (JArr xs) k d = Inl AttributeError"

subsection \<open>Constants (\<^verbatim>\<open>bydfipy/constants.py\<close>)\<close>

definition WS_TICKER :: string where "WS_TICKER = ''ticker''"
definition WS_TICKER_24HR :: string where "WS_TICKER_24HR = ''ticker.24h''"
definition WS_ORDERBOOK :: string where "WS_ORDERBOOK = ''orderbook''"
definition WS_TRADES :: string where "WS_TRADES = ''trades''"
definition WS_KLINES :: string where "WS_KLINES = ''klines''"

subsection \<open>The envelope and \<^verbatim>\<open>_process_message\<close>\<close>

text \<open>\<^verbatim>\<open>WSMessage\<close> of \<^verbatim>\<open>bydfipy/types.py\<close>.\<close>

record ws_message =
  msg_type :: string
  msg_stream :: json
  msg_data :: json
  msg_time :: int

text \<open>
  \<^verbatim>\<open>get_timestamp\<close> of \<^verbatim>\<open>bydfipy/utils.py\<close>: \<^verbatim>\<open>int(time.time() * 1000)\<close>, where \<^verbatim>\<open>int\<close>
  truncates towards zero. The clock reading is a real number of seconds.
\<close>

definition get_timestamp :: "real \<Rightarrow> int" where
  "get_timestamp now = (if 0 \<le> now * 1000 then \<lfloor>now * 1000\<rfloor> else \<lceil>now * 1000\<rceil>)"

text \<open>
  The \<^verbatim>\<open>if\<close>/\<^verbatim>\<open>elif\<close> chain of lines 243 to 258. Each test is an \<^verbatim>\<open>in\<close> on the value
  of the \<^verbatim>\<open>stream\<close> field, which raises when that value is not a container.
\<close>

definition classify :: "json \<Rightarrow> error + string" where
  "classify stream =
     (case py_in ''ticker'' stream of
        Inl e \<Rightarrow> Inl e
      | Inr True \<Rightarrow>
          (case py_in ''24h'' stream of
             Inl e \<Rightarrow> Inl e
           | Inr True \<Rightarrow> Inr WS_TICKER_24HR
           | Inr False \<Rightarrow> Inr WS_TICKER)
      | Inr False \<Rightarrow>
      (case py_in ''orderbook'' stream of
        Inl e \<Rightarrow> Inl e
      | Inr True \<Rightarrow> Inr WS_ORDERBOOK
      | Inr False \<Rightarrow>
      (case py_in ''trades'' stream of
        Inl e \<Rightarrow> Inl e
      | Inr True \<Rightarrow> Inr WS_TRADES
      | Inr False \<Rightarrow>
      (case py_in ''kline'' stream of
        Inl e \<Rightarrow> Inl e
      | Inr True \<Rightarrow> Inr WS_KLINES
      | Inr False \<Rightarrow>
      (case py_in ''account'' stream of
        Inl e \<Rightarrow> Inl e
      | Inr True \<Rightarrow> Inr ''account''
      | Inr False \<Rightarrow>
      (case py_in ''order'' stream of
        Inl e \<Rightarrow> Inl e
      | Inr True \<Rightarrow> Inr ''order''
      | Inr False \<Rightarrow> Inr ''''))))))"

definition process_message :: "json \<Rightarrow> real \<Rightarrow> error + ws_message" where
  "process_message message now =
     (case py_get message ''stream'' (JStr '''') of
        Inl e \<Rightarrow> Inl e
      | Inr stream \<Rightarrow>
     (case py_get message ''data'' (JObj []) of
        Inl e \<Rightarrow> Inl e
      | Inr data \<Rightarrow>
     (case classify stream of
        Inl e \<Rightarrow> Inl e
      | Inr ty \<Rightarrow>
          Inr \<lparr>msg_type = ty, msg_stream = stream, msg_data = data,
               msg_time = get_timestamp now\<rparr>)))"

text \<open>
  The feed kinds as the specification enumerates them, the rule it gives for deriving
  one from a feed identifier, and the string by which the code names each kind
  (\<^verbatim>\<open>WSMessageType\<close>, and the empty string when no test matched).
\<close>

datatype feed_kind =
  Ticker | Ticker24h | Orderbook | Trades | Klines | Account | Order | Unknown

definition spec_feed_kind :: "string \<Rightarrow> feed_kind" where
  "spec_feed_kind st =
     (if sublist ''ticker'' st \<and> sublist ''24h'' st then Ticker24h
      else if sublist ''ticker'' st then Ticker
      else if sublist ''orderbook'' st then Orderbook
      else if sublist ''trades'' st then Trades
      else if sublist ''kline'' st then Klines
      else if sublist ''account'' st then Account
      else if sublist ''order'' st then Order
      else Unknown)"

fun kind_name :: "feed_kind \<Rightarrow> string" where
  "kind_name Ticker = ''ticker''"
| "kind_name Ticker24h = ''ticker.24h''"
| "kind_name Orderbook = ''orderbook''"
| "kind_name Trades = ''trades''"
| "kind_name Klines = ''klines''"
| "kind_name Account = ''account''"
| "kind_name Order = ''order''"
| "kind_name Unknown = ''''"

subsection \<open>Outgoing frames\<close>

text \<open>
  The dicts handed to \<^verbatim>\<open>_send\<close>. The signature of the \<^verbatim>\<open>AUTH\<close> frame is kept as
  the term \<^verbatim>\<open>generate_signature\<close> is applied to (the secret and the signed text); the
  keyed hash itself belongs to Python's library.
\<close>

datatype signature = HmacSha256Hex string string

definition generate_signature :: "string \<Rightarrow> string \<Rightarrow> signature" where
  "generate_signature secret_key query_string = HmacSha256Hex secret_key query_string"

datatype frame =
    SUBSCRIBE "string list"
  | UNSUBSCRIBE "string list"
  | PING
  | AUTH string int signature

text \<open>Decimal text of an integer, as an f-string prints it.\<close>

fun str_nat :: "nat \<Rightarrow> string" where
  "str_nat n =
     (if n < 10 then [''0123456789'' ! n]
      else str_nat (n div 10) @ [''0123456789'' ! (n mod 10)])"

declare str_nat.simps [simp del]

definition str_int :: "int \<Rightarrow> string" where
  "str_int i = (if i < 0 then CHR ''-'' # str_nat (nat (- i)) else str_nat (nat i))"

subsection \<open>Client state\<close>

text \<open>
  A task attribute is \<^verbatim>\<open>None\<close> or a task, which is pending, cancelled or finished.
  \<^verbatim>\<open>done()\<close> holds of the last two. A call of \<^verbatim>\<open>cancel()\<close> is modelled as taking
  effect at once, and the coroutine that calls it goes on with its next statement, also
  when the task it cancels is the one it runs in (the probe loop calling \<^verbatim>\<open>close\<close>).
  How the event loop delivers a cancellation is not part of the model.
\<close>

datatype task = NoTask | Pending | Cancelled | Finished

fun task_done :: "task \<Rightarrow> bool" where
  "task_done Cancelled = True"
| "task_done Finished = True"
| "task_done _ = False"

fun cancel :: "task \<Rightarrow> task" where
  "cancel Pending = Cancelled"
| "cancel t = t"

datatype activity = Listener | Pinger | Reconnect

text \<open>What the client does to the outside world, in order.\<close>

datatype event =
    Connect bool
  | Send frame
  | WsClose
  | Spawn activity

text \<open>
  The attributes of \<^verbatim>\<open>BydfiWebSocketClient\<close>, followed by the environment: \<open>clock\<close> is
  what \<^verbatim>\<open>time.time()\<close> returns, \<open>link\<close> lists the outcomes of the coming calls of
  \<^verbatim>\<open>websockets.connect\<close> (\<open>True\<close> for a connection, \<open>False\<close> or an exhausted list for an
  exception), \<open>trace\<close> is the list of events so far. The handle \<open>ws\<close> is \<^verbatim>\<open>None\<close> or a
  connection together with its \<^verbatim>\<open>open\<close> attribute. The subscription set is kept as a list
  without repetitions; its order stands for the order in which Python iterates the set.
\<close>

record client =
  api_key :: "string option"
  api_secret :: "string option"
  ping_interval :: real
  ping_timeout :: real
  reconnect_delay :: real
  ws :: "bool option"
  subscribed_streams :: "string list"
  authenticated :: bool
  message_queue :: "ws_message list"
  running :: bool
  reconnect_task :: task
  listener_task :: task
  ping_task :: task
  last_ping_time :: real
  last_pong_time :: real
  clock :: real
  link :: "bool list"
  trace :: "event list"

text \<open>\<^verbatim>\<open>__init__\<close>, with the environment it starts in.\<close>

definition init :: "string option \<Rightarrow> string option \<Rightarrow> real \<Rightarrow> real \<Rightarrow> real \<Rightarrow> client" where
  "init key secret interval timeout delay =
     \<lparr>api_key = key, api_secret = secret, ping_interval = interval, ping_timeout = timeout,
      reconnect_delay = delay, ws = None, subscribed_streams = [], authenticated = False,
      message_queue = [], running = False, reconnect_task = NoTask, listener_task = NoTask,
      ping_task = NoTask, last_ping_time = 0, last_pong_time = 0,
      clock = 0, link = [], trace = []\<rparr>"

text \<open>\<^verbatim>\<open>self.ws and self.ws.open\<close>.\<close>

definition ws_open :: "client \<Rightarrow> bool" where
  "ws_open s = (case ws s of None \<Rightarrow> False | Some opn \<Rightarrow> opn)"

text \<open>Truth value of an optional string: \<^verbatim>\<open>None\<close> and the empty string are false.\<close>

fun truthy :: "string option \<Rightarrow> bool" where
  "truthy None = False"
| "truthy (Some x) = (x \<noteq> [])"

definition link_up :: "client \<Rightarrow> bool" where
  "link_up s = (case link s of [] \<Rightarrow> False | b # bs \<Rightarrow> b)"

definition emit :: "event \<Rightarrow> client \<Rightarrow> client" where
  "emit e s = s\<lparr>trace := trace s @ [e]\<rparr>"

text \<open>\<^verbatim>\<open>asyncio.create_task\<close>, stored in the attribute of the activity.\<close>

fun create_task :: "activity \<Rightarrow> client \<Rightarrow> client" where
  "create_task Listener s = (emit (Spawn Listener) s)\<lparr>listener_task := Pending\<rparr>"
| "create_task Pinger s = (emit (Spawn Pinger) s)\<lparr>ping_task := Pending\<rparr>"
| "create_task Reconnect s = (emit (Spawn Reconnect) s)\<lparr>reconnect_task := Pending\<rparr>"

text \<open>
  \<^verbatim>\<open>if not self.reconnect_task or self.reconnect_task.done(): self.reconnect_task =
  asyncio.create_task(self._reconnect())\<close>, the same three lines at every place.
\<close>

definition spawn_reconnect :: "client \<Rightarrow> client" where
  "spawn_reconnect s =
     (if reconnect_task s = NoTask \<or> task_done (reconnect_task s)
      then create_task Reconnect s else s)"

subsection \<open>\<^verbatim>\<open>_send\<close>, \<^verbatim>\<open>_authenticate\<close> and \<^verbatim>\<open>connect\<close>\<close>

text \<open>
  The three call each other: \<^verbatim>\<open>_send\<close> connects when the handle is not open,
  \<^verbatim>\<open>connect\<close> replays through \<^verbatim>\<open>_send\<close> and \<^verbatim>\<open>_authenticate\<close>, and \<^verbatim>\<open>_authenticate\<close>
  sends. The definitions are layered: \<open>send_if_open\<close> is the second statement of
  \<^verbatim>\<open>_send\<close> (lines 224 to 226), \<open>authenticate_via\<close> is \<^verbatim>\<open>_authenticate\<close> with the send
  function as an argument, and \<open>connect\<close> is written with these. Lemmas
  \<open>send_open\<close>, \<open>resubscribe_send\<close> and \<open>connect_source\<close> below show that
  \<open>connect\<close> satisfies the equation in which the source's own calls appear.
\<close>

definition send_if_open :: "client \<Rightarrow> frame \<Rightarrow> client" where
  "send_if_open s data = (if ws_open s then emit (Send data) s else s)"

text \<open>
  The dict \<^verbatim>\<open>auth_msg\<close> of lines 274 to 285. It is built only after the test of line 271
  has found both credentials.
\<close>

definition auth_msg :: "client \<Rightarrow> frame" where
  "auth_msg s =
     (let timestamp = get_timestamp (clock s);
          params = ''timestamp='' @ str_int timestamp;
          signature = generate_signature (the (api_secret s)) params
      in AUTH (the (api_key s)) timestamp signature)"

definition authenticate_via ::
  "(client \<Rightarrow> frame \<Rightarrow> client) \<Rightarrow> client \<Rightarrow> error option \<times> client" where
  "authenticate_via snd_fn s =
     (if \<not> truthy (api_key s) \<or> \<not> truthy (api_secret s) then (Some BydfiValueError, s)
      else (None, (snd_fn s (auth_msg s))\<lparr>authenticated := True\<rparr>))"

text \<open>The \<^verbatim>\<open>except Exception\<close> branch of \<^verbatim>\<open>connect\<close> (lines 109 to 116).\<close>

definition connect_failed :: "client \<Rightarrow> client" where
  "connect_failed s = spawn_reconnect (s\<lparr>ws := None, running := False\<rparr>)"

text \<open>The loop of lines 100 and 101.\<close>

definition resubscribe_via :: "(client \<Rightarrow> frame \<Rightarrow> client) \<Rightarrow> client \<Rightarrow> client" where
  "resubscribe_via snd_fn s =
     fold (\<lambda>stream s'. snd_fn s' (SUBSCRIBE [stream])) (subscribed_streams s) s"

definition connect :: "client \<Rightarrow> client" where
  "connect s =
     (if ws_open s then s
      else if link_up s then
        (let s1 = (emit (Connect True) s)\<lparr>link := tl (link s), ws := Some True, running := True\<rparr>;
             s2 = create_task Listener s1;
             s3 = create_task Pinger s2
         in if subscribed_streams s3 \<noteq> [] then
              (let s4 = resubscribe_via send_if_open s3
               in if authenticated s4 \<and> truthy (api_key s4) \<and> truthy (api_secret s4) then
                    (case authenticate_via send_if_open s4 of
                       (None, s5) \<Rightarrow> s5
                     | (Some e, s5) \<Rightarrow> connect_failed s5)
                  else s4)
            else s3)
      else connect_failed ((emit (Connect False) s)\<lparr>link := tl (link s)\<rparr>))"

definition send :: "client \<Rightarrow> frame \<Rightarrow> client" where
  "send s data = send_if_open (if \<not> ws_open s then connect s else s) data"

definition authenticate :: "client \<Rightarrow> error option \<times> client" where
  "authenticate s = authenticate_via send s"

text \<open>\<^verbatim>\<open>_reconnect\<close> once its sleep is over, up to the return of the coroutine.\<close>

definition reconnect :: "client \<Rightarrow> client" where
  "reconnect s = (connect s)\<lparr>reconnect_task := Finished\<rparr>"

subsection \<open>\<^verbatim>\<open>subscribe\<close>, \<^verbatim>\<open>unsubscribe\<close>, \<^verbatim>\<open>close\<close>, \<^verbatim>\<open>messages\<close>\<close>

definition set_add :: "string \<Rightarrow> string list \<Rightarrow> string list" where
  "set_add x xs = (if x \<in> set xs then xs else xs @ [x])"

definition set_remove :: "string \<Rightarrow> string list \<Rightarrow> string list" where
  "set_remove x xs = (if x \<in> set xs then removeAll x xs else xs)"

definition subscribe :: "client \<Rightarrow> string list \<Rightarrow> error option \<times> client" where
  "subscribe s streams =
     (if streams = [] then (None, s)
      else
        (let s1 = (if \<not> ws_open s then connect s else s);
             s2 = send s1 (SUBSCRIBE streams)
         in (None, s2\<lparr>subscribed_streams := fold set_add streams (subscribed_streams s2)\<rparr>)))"

definition unsubscribe :: "client \<Rightarrow> string list \<Rightarrow> error option \<times> client" where
  "unsubscribe s streams =
     (if streams = [] then (None, s)
      else if \<not> ws_open s then (None, s)
      else
        (let s1 = send s (UNSUBSCRIBE streams)
         in (None, s1\<lparr>subscribed_streams := fold set_remove streams (subscribed_streams s1)\<rparr>)))"

definition close :: "client \<Rightarrow> client" where
  "close s =
     (let s1 = s\<lparr>running := False\<rparr>;
          s2 = (if listener_task s1 \<noteq> NoTask \<and> \<not> task_done (listener_task s1)
                then s1\<lparr>listener_task := cancel (listener_task s1)\<rparr> else s1);
          s3 = (if ping_task s2 \<noteq> NoTask \<and> \<not> task_done (ping_task s2)
                then s2\<lparr>ping_task := cancel (ping_task s2)\<rparr> else s2);
          s4 = (if ws_open s3 then (emit WsClose s3)\<lparr>ws := Some False\<rparr> else s3)
      in s4\<lparr>subscribed_streams := [], authenticated := False\<rparr>)"

text \<open>
  One turn of the loop of \<^verbatim>\<open>messages\<close>: connect when the handle is not open, then take
  the head of the queue. \<open>None\<close> stands for the \<^verbatim>\<open>get\<close> that waits on an empty queue.
\<close>

definition messages_next :: "client \<Rightarrow> ws_message option \<times> client" where
  "messages_next s =
     (let s1 = (if \<not> ws_open s then connect s else s)
      in case message_queue s1 of
           [] \<Rightarrow> (None, s1)
         | m # q \<Rightarrow> (Some m, s1\<lparr>message_queue := q\<rparr>))"


subsection \<open>The receive loop \<^verbatim>\<open>_listener\<close>\<close>

text \<open>
  An inbound frame is a text on which \<^verbatim>\<open>json.loads\<close> raises \<^verbatim>\<open>JSONDecodeError\<close>, or one
  that it decodes.
\<close>

datatype inbound = Undecodable | Decoded json

text \<open>
  Lines 140 to 157. No attribute is written before the last statement of a branch, so
  an exception leaves the state as it was.
\<close>

definition handle_frame :: "client \<Rightarrow> json \<Rightarrow> error + client" where
  "handle_frame s data =
     (case py_in ''error'' data of
        Inl e \<Rightarrow> Inl e
      | Inr True \<Rightarrow>
          (case py_get data ''error'' (JObj []) of
             Inl e \<Rightarrow> Inl e
           | Inr err \<Rightarrow>
          (case py_get err ''msg'' (JStr ''Unknown error'') of
             Inl e \<Rightarrow> Inl e
           | Inr error_msg \<Rightarrow>
          (case py_get err ''code'' (JNum 0) of
             Inl e \<Rightarrow> Inl e
           | Inr error_code \<Rightarrow> Inr s)))
      | Inr False \<Rightarrow>
     (case py_in ''result'' data of
        Inl e \<Rightarrow> Inl e
      | Inr has_result \<Rightarrow>
     (case (if has_result then py_get data ''id'' JNull else Inr JNull) of
        Inl e \<Rightarrow> Inl e
      | Inr ident \<Rightarrow>
          if has_result \<and> ident = JStr ''ping'' then Inr (s\<lparr>last_pong_time := clock s\<rparr>)
          else
            (case py_in ''stream'' data of
               Inl e \<Rightarrow> Inl e
             | Inr False \<Rightarrow> Inr s
             | Inr True \<Rightarrow>
                 (case process_message data (clock s) of
                    Inl e \<Rightarrow> Inl e
                  | Inr processed_msg \<Rightarrow>
                      Inr (s\<lparr>message_queue := message_queue s @ [processed_msg]\<rparr>))))))"

text \<open>The inner \<^verbatim>\<open>try\<close> of lines 135 to 160: only \<^verbatim>\<open>JSONDecodeError\<close> is caught.\<close>

fun listener_frame :: "client \<Rightarrow> inbound \<Rightarrow> error + client" where
  "listener_frame s Undecodable = Inr s"
| "listener_frame s (Decoded data) = handle_frame s data"

text \<open>
  The two \<^verbatim>\<open>except\<close> branches of the outer \<^verbatim>\<open>try\<close> (lines 162 to 184), which differ in
  the logged text only.
\<close>

definition listener_failed :: "client \<Rightarrow> client" where
  "listener_failed s =
     (let s1 = s\<lparr>running := False\<rparr>;
          s2 = (if ping_task s1 \<noteq> NoTask then s1\<lparr>ping_task := cancel (ping_task s1)\<rparr> else s1)
      in spawn_reconnect s2)"

text \<open>
  The \<^verbatim>\<open>async for\<close> over the connection: the frames with the clock reading at which each
  arrives, and how the iteration ends (it stops, or raises \<^verbatim>\<open>ConnectionClosed\<close>).
\<close>

datatype ending = Stops | Raises

text \<open>
  The iteration ends only when the connection is closed, and the \<^verbatim>\<open>open\<close> attribute of a
  closed connection is false.
\<close>

definition transport_lost :: "client \<Rightarrow> client" where
  "transport_lost s = (case ws s of None \<Rightarrow> s | Some opn \<Rightarrow> s\<lparr>ws := Some False\<rparr>)"

fun listener_loop :: "client \<Rightarrow> (real \<times> inbound) list \<Rightarrow> ending \<Rightarrow> client" where
  "listener_loop s [] Stops = transport_lost s"
| "listener_loop s [] Raises = listener_failed (transport_lost s)"
| "listener_loop s ((t, m) # ms) e =
     (case listener_frame (s\<lparr>clock := t\<rparr>) m of
        Inl err \<Rightarrow> listener_failed (s\<lparr>clock := t\<rparr>)
      | Inr s' \<Rightarrow> listener_loop s' ms e)"

definition listener :: "client \<Rightarrow> (real \<times> inbound) list \<Rightarrow> ending \<Rightarrow> client" where
  "listener s ms e =
     (if ws s = None then s else listener_loop s ms e)\<lparr>listener_task := Finished\<rparr>"

subsection \<open>The probe loop \<^verbatim>\<open>_pinger\<close>\<close>

text \<open>
  The loop test, the part of a turn before the sleep (lines 193 and 194), the test of
  lines 200 and 201, and the part after the sleep (lines 200 to 207).
\<close>

definition pinger_test :: "client \<Rightarrow> bool" where
  "pinger_test s = (running s \<and> ws_open s)"

definition pinger_probe :: "client \<Rightarrow> client" where
  "pinger_probe s = (let s1 = send s PING in s1\<lparr>last_ping_time := clock s1\<rparr>)"

definition ping_stale :: "client \<Rightarrow> bool" where
  "ping_stale s =
     (last_ping_time s > last_pong_time s \<and> clock s - last_ping_time s > ping_timeout s)"

definition pinger_check :: "client \<Rightarrow> client" where
  "pinger_check s = (if ping_stale s then spawn_reconnect (close s) else s)"

text \<open>The clock moves to \<open>t\<close>.\<close>

definition at_time :: "real \<Rightarrow> client \<Rightarrow> client" where
  "at_time t s = s\<lparr>clock := t\<rparr>"

subsection \<open>Reading the trace\<close>

fun sent_of :: "event \<Rightarrow> frame list" where
  "sent_of (Send f) = [f]"
| "sent_of _ = []"

fun is_connect :: "event \<Rightarrow> bool" where
  "is_connect (Connect b) = True"
| "is_connect _ = False"

fun is_spawn :: "event \<Rightarrow> bool" where
  "is_spawn (Spawn a) = True"
| "is_spawn _ = False"


text \<open>The frames given to the transport, the connection attempts, the tasks created.\<close>

definition sent :: "client \<Rightarrow> frame list" where
  "sent s = concat (map sent_of (trace s))"

definition attempts :: "client \<Rightarrow> nat" where
  "attempts s = length (filter is_connect (trace s))"

definition spawned :: "client \<Rightarrow> event list" where
  "spawned s = filter is_spawn (trace s)"

text \<open>The frames sent between an earlier state \<open>s\<close> and a later state \<open>s'\<close>.\<close>

definition sent_since :: "client \<Rightarrow> client \<Rightarrow> frame list" where
  "sent_since s s' = drop (length (sent s)) (sent s')"

text \<open>
  What a successful \<^verbatim>\<open>connect\<close> replays (lines 98 to 105): one \<^verbatim>\<open>SUBSCRIBE\<close> per entry
  of the subscription set and, inside the same \<^verbatim>\<open>if\<close>, the \<^verbatim>\<open>AUTH\<close> frame.
\<close>

definition replay_frames :: "client \<Rightarrow> frame list" where
  "replay_frames s =
     map (\<lambda>stream. SUBSCRIBE [stream]) (subscribed_streams s)
     @ (if subscribed_streams s \<noteq> [] \<and> authenticated s
           \<and> truthy (api_key s) \<and> truthy (api_secret s)
        then [auth_msg s] else [])"

subsection \<open>Example states\<close>

text \<open>A client with credentials and the default intervals, not yet connected.\<close>

definition demo :: client where
  "demo = init (Some ''key'') (Some ''secret'') 30 10 5"

text \<open>A client without an API key.\<close>

definition keyless :: client where
  "keyless = (init None (Some ''secret'') 30 10 5)\<lparr>link := [True]\<rparr>"

text \<open>
  The first connection attempt was refused, so a reconnect task sleeps; the next
  attempt would succeed.
\<close>

definition refused :: client where
  "refused = connect (demo\<lparr>link := [False, True]\<rparr>)"

text \<open>Not connected, and the network refuses the next two attempts.\<close>

definition offline :: client where
  "offline = demo\<lparr>link := [False, False]\<rparr>"

text \<open>Connected and subscribed to one feed; then the same after the connection dropped.\<close>

definition watching :: client where
  "watching = snd (subscribe (demo\<lparr>link := [True, True]\<rparr>) [''btc-usdt@ticker''])"

definition dropped :: client where
  "dropped = listener watching [] Raises"



text \<open>
  A probe acknowledgement, an error frame whose \<^verbatim>\<open>error\<close> field is a string, and a
  ticker frame.
\<close>

definition pong_frame :: inbound where
  "pong_frame = Decoded (JObj [(''result'', JNull), (''id'', JStr ''ping'')])"

definition error_text_frame :: inbound where
  "error_text_frame = Decoded (JObj [(''error'', JStr ''bad request'')])"

definition ticker_frame :: inbound where
  "ticker_frame =
     Decoded (JObj [(''stream'', JStr ''btc-usdt@ticker''), (''data'', JObj [])])"

section \<open>Properties\<close>

subsection \<open>Substring test\<close>

lemma starts_with_prefix: "starts_with p t \<longleftrightarrow> prefix p t"
  by (induction p t rule: starts_with.induct) simp_all

lemma str_in_sublist: "str_in p t \<longleftrightarrow> sublist p t"
proof (induction t)
  case Nil
  show ?case by simp
next
  case (Cons d t)
  then show ?case
    by (simp add: starts_with_prefix sublist_Cons_right)
qed

subsection \<open>The layered definitions against the source\<close>

lemma ws_open_emit [simp]: "ws_open (emit e s) = ws_open s"
  by (simp add: ws_open_def emit_def)

lemma ws_open_send_if_open [simp]: "ws_open (send_if_open s f) = ws_open s"
  by (simp add: send_if_open_def)

lemma send_open: "ws_open s \<Longrightarrow> send s f = send_if_open s f"
  by (simp add: send_def)

lemma fold_send_open:
  "ws_open s \<Longrightarrow>
     fold (\<lambda>x s'. send s' (SUBSCRIBE [x])) xs s = fold (\<lambda>x s'. send_if_open s' (SUBSCRIBE [x])) xs s"
  by (induction xs arbitrary: s) (simp_all add: send_open)

lemma ws_open_fold_send_if_open [simp]:
  "ws_open (fold (\<lambda>x s'. send_if_open s' (g x)) xs s) = ws_open s"
  by (induction xs arbitrary: s) simp_all

lemma resubscribe_send: "ws_open s \<Longrightarrow> resubscribe_via send s = resubscribe_via send_if_open s"
  by (simp add: resubscribe_via_def fold_send_open)

lemma authenticate_open: "ws_open s \<Longrightarrow> authenticate s = authenticate_via send_if_open s"
  by (simp add: authenticate_def authenticate_via_def send_open)

lemma ws_open_create_task [simp]: "ws_open (create_task a s) = ws_open s"
  by (cases a) (simp_all add: ws_open_def emit_def)

lemma ws_open_resubscribe [simp]: "ws_open (resubscribe_via send_if_open s) = ws_open s"
  by (simp add: resubscribe_via_def)

lemma connect_source:
  "connect s =
     (if ws_open s then s
      else if link_up s then
        (let s1 = (emit (Connect True) s)\<lparr>link := tl (link s), ws := Some True, running := True\<rparr>;
             s2 = create_task Listener s1;
             s3 = create_task Pinger s2
         in if subscribed_streams s3 \<noteq> [] then
              (let s4 = resubscribe_via send s3
               in if authenticated s4 \<and> truthy (api_key s4) \<and> truthy (api_secret s4) then
                    (case authenticate s4 of
                       (None, s5) \<Rightarrow> s5
                     | (Some e, s5) \<Rightarrow> connect_failed s5)
                  else s4)
            else s3)
      else connect_failed ((emit (Connect False) s)\<lparr>link := tl (link s)\<rparr>))"
proof -
  let ?s3 = "create_task Pinger (create_task Listener
     ((emit (Connect True) s)\<lparr>link := tl (link s), ws := Some True, running := True\<rparr>))"
  have o3: "ws_open ?s3" by (simp add: ws_open_def emit_def)
  have r: "resubscribe_via send ?s3 = resubscribe_via send_if_open ?s3"
    using o3 by (rule resubscribe_send)
  have o4: "ws_open (resubscribe_via send_if_open ?s3)" using o3 by simp
  have a: "authenticate (resubscribe_via send_if_open ?s3)
         = authenticate_via send_if_open (resubscribe_via send_if_open ?s3)"
    using o4 by (rule authenticate_open)
  show ?thesis
    unfolding connect_def Let_def r a ..
qed

subsection \<open>What \<^verbatim>\<open>connect\<close> does, case by case\<close>

lemma fold_send_if_open:
  "ws_open s \<Longrightarrow>
     fold (\<lambda>x s'. send_if_open s' (g x)) xs s = s\<lparr>trace := trace s @ map (\<lambda>x. Send (g x)) xs\<rparr>"
proof (induction xs arbitrary: s)
  case Nil
  show ?case by simp
next
  case (Cons x xs)
  have step: "send_if_open s (g x) = s\<lparr>trace := trace s @ [Send (g x)]\<rparr>"
    using Cons.prems by (simp add: send_if_open_def emit_def)
  have "ws_open (send_if_open s (g x))" using Cons.prems by simp
  from Cons.IH [OF this] show ?case
    by (simp add: step)
qed

lemma connect_open: "ws_open s \<Longrightarrow> connect s = s"
  by (simp add: connect_def)

lemma connect_refused:
  "\<not> ws_open s \<Longrightarrow> \<not> link_up s \<Longrightarrow>
     connect s = spawn_reconnect
       (s\<lparr>trace := trace s @ [Connect False], link := tl (link s), ws := None, running := False\<rparr>)"
  by (simp add: connect_def connect_failed_def emit_def)

lemma connect_established:
  assumes "\<not> ws_open s" and "link_up s"
  shows "connect s =
     s\<lparr>ws := Some True, running := True, listener_task := Pending, ping_task := Pending,
       link := tl (link s),
       trace := trace s @ [Connect True, Spawn Listener, Spawn Pinger]
                @ map Send (replay_frames s)\<rparr>"
proof -
  let ?t = "s\<lparr>ws := Some True, running := True, listener_task := Pending,
       ping_task := Pending, link := tl (link s),
       trace := trace s @ [Connect True, Spawn Listener, Spawn Pinger]\<rparr>"
  have s3: "create_task Pinger (create_task Listener
     ((emit (Connect True) s)\<lparr>link := tl (link s), ws := Some True, running := True\<rparr>)) = ?t"
    by (simp add: emit_def)
  have o3: "ws_open ?t" by (simp add: ws_open_def)
  have s4: "resubscribe_via send_if_open ?t =
      ?t\<lparr>trace := trace ?t @ map (\<lambda>x. Send (SUBSCRIBE [x])) (subscribed_streams ?t)\<rparr>"
    unfolding resubscribe_via_def using o3 by (rule fold_send_if_open)
  let ?u = "?t\<lparr>trace := trace ?t @ map (\<lambda>x. Send (SUBSCRIBE [x])) (subscribed_streams ?t)\<rparr>"
  have ou: "ws_open ?u" by (simp add: ws_open_def)
  have c: "connect s =
     (if subscribed_streams ?t \<noteq> [] then
        if authenticated ?u \<and> truthy (api_key ?u) \<and> truthy (api_secret ?u) then
          (case authenticate_via send_if_open ?u of
             (None, s5) \<Rightarrow> s5
           | (Some e, s5) \<Rightarrow> connect_failed s5)
        else ?u
      else ?t)"
    using assms unfolding connect_def Let_def s3 s4 by simp
  show ?thesis
  proof (cases "subscribed_streams s = []")
    case True
    then show ?thesis
      unfolding c by (simp add: replay_frames_def)
  next
    case False
    show ?thesis
    proof (cases "authenticated s \<and> truthy (api_key s) \<and> truthy (api_secret s)")
      case True
      have "authenticate_via send_if_open ?u
              = (None, (emit (Send (auth_msg s)) ?u)\<lparr>authenticated := True\<rparr>)"
        using True ou by (simp add: authenticate_via_def send_if_open_def auth_msg_def)
      then show ?thesis
        unfolding c using True False
        by (simp add: emit_def replay_frames_def)
    next
      case f2: False
      then show ?thesis
        unfolding c using False
        by (auto simp add: replay_frames_def)
    qed
  qed
qed

subsection \<open>Feed classification\<close>

lemma classify_string: "classify (JStr st) = Inr (kind_name (spec_feed_kind st))"
  by (simp add: classify_def spec_feed_kind_def str_in_sublist WS_TICKER_def WS_TICKER_24HR_def
      WS_ORDERBOOK_def WS_TRADES_def WS_KLINES_def)

text \<open>
  Claim C6. For a data frame whose \<^verbatim>\<open>stream\<close> field is the string \<open>st\<close>,
  \<^verbatim>\<open>_process_message\<close> returns an envelope whose type is the name of the kind that the
  ordered substring rule of the specification gives for \<open>st\<close> (the kind "unknown" being
  the empty type string in the code), and whose stream is \<open>st\<close>. The seven identifiers
  listed in the specification are classified as it says.
\<close>

theorem feed_kind_by_ordered_matching:
  "(map_of kvs ''stream'' = Some (JStr st) \<longrightarrow>
      (\<exists>env. process_message (JObj kvs) now = Inr env
         \<and> msg_type env = kind_name (spec_feed_kind st) \<and> msg_stream env = JStr st))
   \<and> classify (JStr ''btc-usdt@ticker'') = Inr (kind_name Ticker)
   \<and> classify (JStr ''btc-usdt@ticker.24h'') = Inr (kind_name Ticker24h)
   \<and> classify (JStr ''btc-usdt@orderbook.10'') = Inr (kind_name Orderbook)
   \<and> classify (JStr ''eth-usdt@kline_1h'') = Inr (kind_name Klines)
   \<and> classify (JStr ''account'') = Inr (kind_name Account)
   \<and> classify (JStr ''order'') = Inr (kind_name Order)
   \<and> classify (JStr ''unknown-thing'') = Inr (kind_name Unknown)"
proof -
  have general: "map_of kvs ''stream'' = Some (JStr st) \<longrightarrow>
      (\<exists>env. process_message (JObj kvs) now = Inr env
         \<and> msg_type env = kind_name (spec_feed_kind st) \<and> msg_stream env = JStr st)"
    by (simp add: process_message_def classify_string)
  have e1: "spec_feed_kind ''btc-usdt@ticker'' = Ticker"
    by (simp add: spec_feed_kind_def flip: str_in_sublist)
  have e2: "spec_feed_kind ''btc-usdt@ticker.24h'' = Ticker24h"
    by (simp add: spec_feed_kind_def flip: str_in_sublist)
  have e3: "spec_feed_kind ''btc-usdt@orderbook.10'' = Orderbook"
    by (simp add: spec_feed_kind_def flip: str_in_sublist)
  have e4: "spec_feed_kind ''eth-usdt@kline_1h'' = Klines"
    by (simp add: spec_feed_kind_def flip: str_in_sublist)
  have e5: "spec_feed_kind ''account'' = Account"
    by (simp add: spec_feed_kind_def flip: str_in_sublist)
  have e6: "spec_feed_kind ''order'' = Order"
    by (simp add: spec_feed_kind_def flip: str_in_sublist)
  have e7: "spec_feed_kind ''unknown-thing'' = Unknown"
    by (simp add: spec_feed_kind_def flip: str_in_sublist)
  show ?thesis
    using general by (simp only: classify_string e1 e2 e3 e4 e5 e6 e7)
qed

theorem feed_kind_by_ordered_matching_witness:
  "map_of [(''stream'', JStr ''btc-usdt@trades''), (''data'', JObj [])] ''stream''
     = Some (JStr ''btc-usdt@trades'')
   \<and> (\<exists>env. process_message (JObj [(''stream'', JStr ''btc-usdt@trades''), (''data'', JObj [])]) 2
                = Inr env
         \<and> msg_type env = ''trades'' \<and> msg_stream env = JStr ''btc-usdt@trades'')"
proof -
  have k: "spec_feed_kind ''btc-usdt@trades'' = Trades"
    by (simp add: spec_feed_kind_def flip: str_in_sublist)
  show ?thesis
    using feed_kind_by_ordered_matching
      [of "[(''stream'', JStr ''btc-usdt@trades''), (''data'', JObj [])]" "''btc-usdt@trades''" 2]
    by (simp add: k)
qed

subsection \<open>Calls that return at once\<close>

text \<open>
  Claim C10. \<^verbatim>\<open>subscribe\<close> and \<^verbatim>\<open>unsubscribe\<close> with an empty list return normally and
  leave the whole state as it was, the trace included: no frame, no connection attempt,
  the same subscription set, flag and handle.
\<close>

theorem empty_list_is_noop:
  "subscribe s [] = (None, s) \<and> unsubscribe s [] = (None, s)"
  by (simp add: subscribe_def unsubscribe_def)

text \<open>
  Claim C9. When the API key or the API secret is missing or empty, \<^verbatim>\<open>_authenticate\<close>
  raises \<^verbatim>\<open>BydfiValueError\<close>, which is not a transport error, and the state is the one it
  was called in: nothing was sent and no connection was attempted.
\<close>

theorem authenticate_without_credentials:
  "\<not> truthy (api_key s) \<or> \<not> truthy (api_secret s) \<Longrightarrow>
     authenticate s = (Some BydfiValueError, s) \<and> \<not> is_transport_error BydfiValueError
     \<and> sent (snd (authenticate s)) = sent s \<and> attempts (snd (authenticate s)) = attempts s"
  by (simp add: authenticate_def authenticate_via_def)

theorem authenticate_without_credentials_witness:
  "api_key keyless = None
   \<and> authenticate keyless = (Some BydfiValueError, keyless)
   \<and> sent (snd (authenticate keyless)) = [] \<and> attempts (snd (authenticate keyless)) = 0"
  using authenticate_without_credentials [of keyless]
  by (simp add: keyless_def init_def sent_def attempts_def)

subsection \<open>\<^verbatim>\<open>close\<close>\<close>

text \<open>
  Claim C2 fails on the code: \<^verbatim>\<open>close\<close> empties the subscription set (line 353). Here a
  client subscribed to one feed is closed.
\<close>

theorem close_keeps_subscriptions_counterexample:
  "set (subscribed_streams watching) = {''btc-usdt@ticker''}
   \<and> set (subscribed_streams (close watching)) \<noteq> set (subscribed_streams watching)"
  by (simp add: watching_def demo_def init_def subscribe_def connect_def send_def
      send_if_open_def ws_open_def link_up_def emit_def set_add_def close_def Let_def)

text \<open>
  Claim C2 as amended. For every state, after \<^verbatim>\<open>close\<close> the receive loop and the probe
  loop are not pending, the transport is not open, the authenticated flag is false, and
  the subscription set is empty.
\<close>

theorem close_clears_subscriptions:
  "subscribed_streams (close s) = [] \<and> \<not> authenticated (close s) \<and> \<not> ws_open (close s)
   \<and> listener_task (close s) \<noteq> Pending \<and> ping_task (close s) \<noteq> Pending"
  by (cases "listener_task s"; cases "ping_task s")
     (simp_all add: close_def Let_def ws_open_def emit_def split: option.splits)

subsection \<open>Attributes that \<^verbatim>\<open>connect\<close> and \<^verbatim>\<open>_send\<close> leave alone\<close>

lemma spawn_reconnect_pending: "reconnect_task (spawn_reconnect s) = Pending"
  by (cases "reconnect_task s") (simp_all add: spawn_reconnect_def emit_def)

lemma spawn_reconnect_fields:
  "subscribed_streams (spawn_reconnect s) = subscribed_streams s"
  "authenticated (spawn_reconnect s) = authenticated s"
  "api_key (spawn_reconnect s) = api_key s"
  "api_secret (spawn_reconnect s) = api_secret s"
  "ping_timeout (spawn_reconnect s) = ping_timeout s"
  "last_ping_time (spawn_reconnect s) = last_ping_time s"
  "last_pong_time (spawn_reconnect s) = last_pong_time s"
  "clock (spawn_reconnect s) = clock s"
  "message_queue (spawn_reconnect s) = message_queue s"
  "ws (spawn_reconnect s) = ws s"
  "running (spawn_reconnect s) = running s"
  "link (spawn_reconnect s) = link s"
  "sent (spawn_reconnect s) = sent s"
  "attempts (spawn_reconnect s) = attempts s"
  by (simp_all add: spawn_reconnect_def emit_def sent_def attempts_def)

lemma ws_open_spawn_reconnect: "ws_open (spawn_reconnect s) = ws_open s"
  by (simp add: ws_open_def spawn_reconnect_fields)

lemma connect_fields:
  "subscribed_streams (connect s) = subscribed_streams s"
  "authenticated (connect s) = authenticated s"
  "api_key (connect s) = api_key s"
  "api_secret (connect s) = api_secret s"
  "ping_timeout (connect s) = ping_timeout s"
  "last_ping_time (connect s) = last_ping_time s"
  "last_pong_time (connect s) = last_pong_time s"
  "clock (connect s) = clock s"
  "message_queue (connect s) = message_queue s"
  by (cases "ws_open s"; cases "link_up s";
      simp add: connect_open connect_refused connect_established spawn_reconnect_fields)+

lemma send_if_open_fields:
  "subscribed_streams (send_if_open s f) = subscribed_streams s"
  "authenticated (send_if_open s f) = authenticated s"
  "api_key (send_if_open s f) = api_key s"
  "api_secret (send_if_open s f) = api_secret s"
  "ping_timeout (send_if_open s f) = ping_timeout s"
  "last_ping_time (send_if_open s f) = last_ping_time s"
  "last_pong_time (send_if_open s f) = last_pong_time s"
  "clock (send_if_open s f) = clock s"
  "message_queue (send_if_open s f) = message_queue s"
  "ws (send_if_open s f) = ws s"
  "reconnect_task (send_if_open s f) = reconnect_task s"
  by (simp_all add: send_if_open_def emit_def)

lemma send_fields:
  "subscribed_streams (send s f) = subscribed_streams s"
  "authenticated (send s f) = authenticated s"
  "api_key (send s f) = api_key s"
  "api_secret (send s f) = api_secret s"
  "ping_timeout (send s f) = ping_timeout s"
  "last_ping_time (send s f) = last_ping_time s"
  "last_pong_time (send s f) = last_pong_time s"
  "clock (send s f) = clock s"
  "message_queue (send s f) = message_queue s"
  by (simp_all add: send_def send_if_open_fields connect_fields)

lemma concat_sent_of_Send: "concat (map (sent_of \<circ> Send) fs) = fs"
  by (induction fs) simp_all

lemma connect_sent_established:
  "\<not> ws_open s \<Longrightarrow> link_up s \<Longrightarrow> sent (connect s) = sent s @ replay_frames s"
  by (simp add: connect_established sent_def concat_sent_of_Send)

lemma connect_sent_refused:
  "\<not> ws_open s \<Longrightarrow> \<not> link_up s \<Longrightarrow> sent (connect s) = sent s"
  by (simp add: connect_refused spawn_reconnect_fields) (simp add: sent_def)

lemma connect_ws_open: "ws_open (connect s) = (ws_open s \<or> link_up s)"
  by (cases "ws_open s"; cases "link_up s";
      simp add: connect_open connect_refused connect_established ws_open_spawn_reconnect)
     (simp_all add: ws_open_def)

lemma connect_attempts:
  "\<not> ws_open s \<Longrightarrow> attempts (connect s) = Suc (attempts s)"
proof (cases "link_up s")
  case True
  assume "\<not> ws_open s"
  with True show ?thesis
    by (simp add: connect_established attempts_def)
next
  case False
  assume "\<not> ws_open s"
  with False have "attempts (connect s) =
      attempts (s\<lparr>trace := trace s @ [Connect False], link := tl (link s),
                  ws := None, running := False\<rparr>)"
    by (simp add: connect_refused spawn_reconnect_fields)
  then show ?thesis by (simp add: attempts_def)
qed

subsection \<open>After \<^verbatim>\<open>close\<close>\<close>

lemma refused_state:
  "refused = demo\<lparr>trace := [Connect False, Spawn Reconnect], link := [True],
                  ws := None, running := False, reconnect_task := Pending\<rparr>"
  by (simp add: refused_def demo_def init_def connect_def ws_open_def link_up_def
      connect_failed_def spawn_reconnect_def emit_def)

text \<open>
  Claim C1 fails on the code: \<^verbatim>\<open>close\<close> cancels the listener and ping tasks and leaves
  \<^verbatim>\<open>reconnect_task\<close> alone, and \<^verbatim>\<open>_reconnect\<close> calls \<^verbatim>\<open>connect\<close> after its sleep without
  a test. Here the client is closed while its reconnect task sleeps; when the task
  wakes it makes a connection attempt, which succeeds.
\<close>

theorem pending_reconnect_after_close_counterexample:
  "reconnect_task (close refused) = Pending
   \<and> attempts (reconnect (close refused)) = Suc (attempts (close refused))
   \<and> ws_open (reconnect (close refused))"
proof -
  have c: "close refused = refused"
    by (simp add: refused_state close_def Let_def ws_open_def demo_def init_def)
  have n: "\<not> ws_open refused"
    by (simp add: refused_state ws_open_def)
  have l: "link_up refused"
    by (simp add: refused_state link_up_def)
  have "attempts (reconnect refused) = Suc (attempts refused)"
    using connect_attempts [OF n] by (simp add: reconnect_def attempts_def)
  moreover have "ws_open (reconnect refused)"
    using connect_ws_open [of refused] l by (simp add: reconnect_def ws_open_def)
  moreover have "reconnect_task refused = Pending"
    by (simp add: refused_state)
  ultimately show ?thesis by (simp add: c)
qed

text \<open>
  Claim C1 as amended. For every state, \<^verbatim>\<open>close\<close> itself makes no connection attempt and
  creates no task; after it the running flag is false, the test of the probe loop
  fails, and the listener and ping tasks are not pending.
\<close>

theorem close_stops_loops:
  "attempts (close s) = attempts s \<and> spawned (close s) = spawned s
   \<and> \<not> running (close s) \<and> \<not> pinger_test (close s)
   \<and> listener_task (close s) \<noteq> Pending \<and> ping_task (close s) \<noteq> Pending"
  by (cases "listener_task s"; cases "ping_task s")
     (simp_all add: close_def Let_def ws_open_def emit_def attempts_def spawned_def
        pinger_test_def split: option.splits)

subsection \<open>The subscription set, and sending while disconnected\<close>

lemma set_fold_set_add: "set (fold set_add xs ys) = set ys \<union> set xs"
  by (induction xs arbitrary: ys) (auto simp: set_add_def)

lemma set_fold_set_remove: "set (fold set_remove xs ys) = set ys - set xs"
  by (induction xs arbitrary: ys) (auto simp: set_remove_def)

lemma distinct_fold_set_add: "distinct ys \<Longrightarrow> distinct (fold set_add xs ys)"
  by (induction xs arbitrary: ys) (auto simp: set_add_def)

lemma distinct_fold_set_remove: "distinct ys \<Longrightarrow> distinct (fold set_remove xs ys)"
  by (induction xs arbitrary: ys) (auto simp: set_remove_def distinct_removeAll)

lemma subscribe_records:
  "streams \<noteq> [] \<Longrightarrow>
     set (subscribed_streams (snd (subscribe s streams))) = set (subscribed_streams s) \<union> set streams"
  by (simp add: subscribe_def Let_def send_fields connect_fields set_fold_set_add)

lemma unsubscribe_connected:
  "ws_open s \<Longrightarrow>
     set (subscribed_streams (snd (unsubscribe s streams))) = set (subscribed_streams s) - set streams"
  by (simp add: unsubscribe_def Let_def send_fields set_fold_set_remove)

lemma unsubscribe_disconnected: "\<not> ws_open s \<Longrightarrow> unsubscribe s streams = (None, s)"
  by (simp add: unsubscribe_def)

lemma watching_state:
  "watching = demo\<lparr>trace := [Connect True, Spawn Listener, Spawn Pinger,
                             Send (SUBSCRIBE [''btc-usdt@ticker''])],
                    link := [True], ws := Some True, running := True,
                    listener_task := Pending, ping_task := Pending,
                    subscribed_streams := [''btc-usdt@ticker'']\<rparr>"
  by (simp add: watching_def demo_def init_def subscribe_def connect_def send_def
      send_if_open_def ws_open_def link_up_def emit_def set_add_def Let_def)

lemma dropped_state:
  "dropped = demo\<lparr>trace := [Connect True, Spawn Listener, Spawn Pinger,
                             Send (SUBSCRIBE [''btc-usdt@ticker'']), Spawn Reconnect],
                    link := [True], ws := Some False, running := False,
                    listener_task := Finished, ping_task := Cancelled,
                    reconnect_task := Pending,
                    subscribed_streams := [''btc-usdt@ticker'']\<rparr>"
  by (simp add: dropped_def watching_state listener_def transport_lost_def listener_failed_def
      spawn_reconnect_def emit_def Let_def demo_def init_def)

text \<open>
  Claim C3 at the input where the code departs from it: the connection has dropped and
  the consumer unsubscribes from the one feed it had. \<^verbatim>\<open>unsubscribe\<close> returns at line 324
  with the state as it was, the feed stays in the set, and the next successful connect
  subscribes to it again.
\<close>

theorem unsubscribe_while_disconnected:
  "\<not> ws_open dropped
   \<and> unsubscribe dropped [''btc-usdt@ticker''] = (None, dropped)
   \<and> ''btc-usdt@ticker'' \<in> set (subscribed_streams (snd (unsubscribe dropped [''btc-usdt@ticker''])))
   \<and> sent_since dropped (reconnect (snd (unsubscribe dropped [''btc-usdt@ticker''])))
       = [SUBSCRIBE [''btc-usdt@ticker'']]"
proof -
  have n: "\<not> ws_open dropped" by (simp add: dropped_state ws_open_def)
  have u: "unsubscribe dropped [''btc-usdt@ticker''] = (None, dropped)"
    using n by (rule unsubscribe_disconnected)
  have l: "link_up dropped" by (simp add: dropped_state link_up_def)
  have "sent (reconnect dropped) = sent dropped @ replay_frames dropped"
    using connect_sent_established [OF n l] by (simp add: reconnect_def sent_def)
  moreover have "replay_frames dropped = [SUBSCRIBE [''btc-usdt@ticker'']]"
    by (simp add: replay_frames_def dropped_state demo_def init_def)
  ultimately have "sent_since dropped (reconnect dropped) = [SUBSCRIBE [''btc-usdt@ticker'']]"
    by (simp add: sent_since_def)
  moreover have "''btc-usdt@ticker'' \<in> set (subscribed_streams dropped)"
    by (simp add: dropped_state)
  ultimately show ?thesis using n by (simp add: u)
qed

lemma offline_subscribe:
  "subscribe offline [''btc-usdt@ticker'']
     = (None, demo\<lparr>trace := [Connect False, Spawn Reconnect, Connect False], link := [],
                     ws := None, running := False, reconnect_task := Pending,
                     subscribed_streams := [''btc-usdt@ticker'']\<rparr>)"
  by (simp add: offline_def demo_def init_def subscribe_def connect_def send_def
      send_if_open_def ws_open_def link_up_def emit_def set_add_def Let_def
      connect_failed_def spawn_reconnect_def)

text \<open>
  Claim C4 fails on the code in its second half: \<^verbatim>\<open>connect\<close> catches every exception and
  \<^verbatim>\<open>_send\<close> sends only under \<^verbatim>\<open>if self.ws and self.ws.open\<close>. Here the network refuses
  both attempts that \<^verbatim>\<open>subscribe\<close> makes; the call returns without an error and no frame
  was sent.
\<close>

theorem send_while_closed_counterexample:
  "\<not> ws_open offline \<and> \<not> link_up offline
   \<and> fst (subscribe offline [''btc-usdt@ticker'']) = None
   \<and> sent (snd (subscribe offline [''btc-usdt@ticker''])) = []
   \<and> attempts (snd (subscribe offline [''btc-usdt@ticker''])) = 2"
  by (simp add: offline_subscribe sent_def attempts_def)
     (simp add: offline_def demo_def init_def ws_open_def link_up_def)

lemma connect_trace_head:
  "\<not> ws_open s \<Longrightarrow> \<exists>rest. trace (connect s) = trace s @ Connect (link_up s) # rest"
  by (cases "link_up s")
     (simp_all add: connect_refused connect_established spawn_reconnect_def emit_def)

text \<open>
  Claim C4 as amended. A \<^verbatim>\<open>_send\<close> on a handle that is not open first attempts a
  connection. If the attempt succeeds, the replay and then the frame are sent. If it
  fails, nothing is sent, the handle stays closed and a reconnect task is pending;
  \<^verbatim>\<open>_send\<close> has no statement that raises.
\<close>

theorem send_connects_first:
  "\<not> ws_open s \<Longrightarrow>
     (\<exists>rest. trace (send s f) = trace s @ Connect (link_up s) # rest)
     \<and> (link_up s \<longrightarrow> sent (send s f) = sent s @ replay_frames s @ [f])
     \<and> (\<not> link_up s \<longrightarrow>
          sent (send s f) = sent s \<and> \<not> ws_open (send s f) \<and> reconnect_task (send s f) = Pending)"
proof -
  assume n: "\<not> ws_open s"
  have s: "send s f = send_if_open (connect s) f"
    using n by (simp add: send_def)
  obtain rest where r: "trace (connect s) = trace s @ Connect (link_up s) # rest"
    using connect_trace_head [OF n] by blast
  have h: "\<exists>rest. trace (send s f) = trace s @ Connect (link_up s) # rest"
    by (simp add: s send_if_open_def emit_def r)
  have up: "link_up s \<longrightarrow> sent (send s f) = sent s @ replay_frames s @ [f]"
  proof
    assume l: "link_up s"
    then have "ws_open (connect s)" by (simp add: connect_ws_open)
    then have "sent (send s f) = sent (connect s) @ [f]"
      by (simp add: s send_if_open_def emit_def sent_def)
    then show "sent (send s f) = sent s @ replay_frames s @ [f]"
      by (simp add: connect_sent_established [OF n l])
  qed
  have down: "\<not> link_up s \<longrightarrow>
          sent (send s f) = sent s \<and> \<not> ws_open (send s f) \<and> reconnect_task (send s f) = Pending"
  proof
    assume l: "\<not> link_up s"
    then have c: "\<not> ws_open (connect s)" using n by (simp add: connect_ws_open)
    then have e: "send s f = connect s" by (simp add: s send_if_open_def)
    have "reconnect_task (connect s) = Pending"
      by (simp add: connect_refused [OF n l] spawn_reconnect_pending)
    then show "sent (send s f) = sent s \<and> \<not> ws_open (send s f)
         \<and> reconnect_task (send s f) = Pending"
      using c by (simp add: e connect_sent_refused [OF n l])
  qed
  show ?thesis using h up down by blast
qed

theorem send_connects_first_witness:
  "\<not> ws_open offline \<and> sent (send offline PING) = [] \<and> reconnect_task (send offline PING) = Pending
   \<and> (\<exists>rest. trace (send offline PING) = Connect False # rest)"
proof -
  have n: "\<not> ws_open offline" by (simp add: offline_def demo_def init_def ws_open_def)
  have l: "\<not> link_up offline" by (simp add: offline_def demo_def init_def link_up_def)
  have t: "trace offline = []" "sent offline = []"
    by (simp_all add: offline_def demo_def init_def sent_def)
  show ?thesis
    using send_connects_first [OF n, of PING] n l by (simp add: t)
qed

subsection \<open>Replay after a reconnect\<close>

lemma listener_failed_fields:
  "subscribed_streams (listener_failed s) = subscribed_streams s"
  "authenticated (listener_failed s) = authenticated s"
  "api_key (listener_failed s) = api_key s"
  "api_secret (listener_failed s) = api_secret s"
  "clock (listener_failed s) = clock s"
  "message_queue (listener_failed s) = message_queue s"
  "ws (listener_failed s) = ws s"
  "link (listener_failed s) = link s"
  "sent (listener_failed s) = sent s"
  "reconnect_task (listener_failed s) = Pending"
  by (simp_all add: listener_failed_def Let_def spawn_reconnect_fields spawn_reconnect_pending)
     (simp_all add: sent_def)












subsection \<open>The keepalive check\<close>

lemma ws_open_close: "\<not> ws_open (close s)"
  by (simp add: close_def Let_def ws_open_def emit_def split: option.splits)

lemma at_time_fields:
  "clock (at_time t s) = t"
  "last_ping_time (at_time t s) = last_ping_time s"
  "last_pong_time (at_time t s) = last_pong_time s"
  "ping_timeout (at_time t s) = ping_timeout s"
  by (simp_all add: at_time_def)

lemma pinger_probe_fields:
  "last_ping_time (pinger_probe s) = clock s"
  "last_pong_time (pinger_probe s) = last_pong_time s"
  "ping_timeout (pinger_probe s) = ping_timeout s"
  "clock (pinger_probe s) = clock s"
  by (simp_all add: pinger_probe_def Let_def send_fields)

lemma pong_received:
  "listener_frame s pong_frame = Inr (s\<lparr>last_pong_time := clock s\<rparr>)"
  by (simp add: pong_frame_def handle_frame_def)

lemma pinger_check_fresh: "\<not> ping_stale s \<Longrightarrow> pinger_check s = s"
  by (simp add: pinger_check_def)

lemma pinger_check_stale:
  "ping_stale s \<Longrightarrow>
     pinger_check s = spawn_reconnect (close s) \<and> \<not> ws_open (pinger_check s)
     \<and> reconnect_task (pinger_check s) = Pending"
  by (simp add: pinger_check_def spawn_reconnect_pending ws_open_spawn_reconnect ws_open_close)

text \<open>
  The pong branch (lines 149 to 151): an object without an \<^verbatim>\<open>error\<close> field, with a
  \<^verbatim>\<open>result\<close> field and with \<^verbatim>\<open>id\<close> equal to \<^verbatim>\<open>"ping"\<close> sets \<^verbatim>\<open>last_pong_time\<close> to the
  clock reading, and no other frame changes \<^verbatim>\<open>last_pong_time\<close>.
\<close>

lemma ack_received:
  "map_of kvs ''error'' = None \<Longrightarrow> map_of kvs ''result'' = Some r \<Longrightarrow>
   map_of kvs ''id'' = Some (JStr ''ping'') \<Longrightarrow>
     listener_frame s (Decoded (JObj kvs)) = Inr (s\<lparr>last_pong_time := clock s\<rparr>)"
  by (simp add: handle_frame_def)

lemma only_ack_writes_pong_time:
  assumes "listener_frame s m = Inr s'" and "last_pong_time s' \<noteq> last_pong_time s"
  shows "\<exists>kvs r. m = Decoded (JObj kvs) \<and> map_of kvs ''error'' = None
           \<and> map_of kvs ''result'' = Some r \<and> map_of kvs ''id'' = Some (JStr ''ping'')
           \<and> last_pong_time s' = clock s"
proof (cases m)
  case Undecodable
  with assms show ?thesis by simp
next
  case (Decoded data)
  show ?thesis
  proof (cases data)
    case (JObj kvs)
    with assms Decoded show ?thesis
      by (auto simp: handle_frame_def split: sum.splits bool.splits if_splits option.splits)
  qed (use assms Decoded in \<open>auto simp: handle_frame_def split: sum.splits bool.splits if_splits\<close>)
qed

text \<open>
  Claim C7. The test of lines 200 and 201 holds exactly when the last probe was sent
  strictly after the last acknowledgement and more than the timeout has passed since;
  the probe loop closes and schedules a reconnect when it holds and does nothing when it
  does not. A probe is sent at time \<open>p\<close>. If an acknowledgement frame is handled by the
  listener at a time \<open>a\<close> not before \<open>p\<close>, the listener returns the state with
  \<^verbatim>\<open>last_pong_time\<close> set to \<open>a\<close>, and from then on no check at any time is stale: in
  particular the check at \<open>p + timeout - eps\<close> leaves the state as it is. If no
  acknowledgement arrives and the last one is older than \<open>p\<close>, a check at time \<open>t\<close> is stale
  exactly when \<open>p + timeout < t\<close>: the check at \<open>p + timeout + eps\<close> closes the client and
  leaves a reconnect task pending.
\<close>

theorem keepalive_staleness:
  assumes "0 < eps"
  shows "(ping_stale c \<longleftrightarrow>
            last_pong_time c < last_ping_time c \<and> ping_timeout c < clock c - last_ping_time c)
     \<and> pinger_check c = (if ping_stale c then spawn_reconnect (close c) else c)
     \<and> (map_of kvs ''error'' = None \<and> map_of kvs ''result'' = Some r
          \<and> map_of kvs ''id'' = Some (JStr ''ping'') \<and> p \<le> a \<longrightarrow>
          (\<exists>s2. listener_frame (at_time a (pinger_probe (at_time p s))) (Decoded (JObj kvs)) = Inr s2
             \<and> s2 = (at_time a (pinger_probe (at_time p s)))\<lparr>last_pong_time := a\<rparr>
             \<and> last_ping_time s2 = p \<and> last_pong_time s2 = a
             \<and> (\<forall>t. \<not> ping_stale (at_time t s2) \<and> pinger_check (at_time t s2) = at_time t s2)
             \<and> \<not> ping_stale (at_time (p + ping_timeout s - eps) s2)
             \<and> pinger_check (at_time (p + ping_timeout s - eps) s2)
                 = at_time (p + ping_timeout s - eps) s2))
     \<and> (last_pong_time s < p \<longrightarrow>
          (\<forall>t. ping_stale (at_time t (pinger_probe (at_time p s))) \<longleftrightarrow> p + ping_timeout s < t)
          \<and> ping_stale (at_time (p + ping_timeout s + eps) (pinger_probe (at_time p s)))
          \<and> pinger_check (at_time (p + ping_timeout s + eps) (pinger_probe (at_time p s)))
              = spawn_reconnect (close (at_time (p + ping_timeout s + eps) (pinger_probe (at_time p s))))
          \<and> \<not> ws_open (pinger_check (at_time (p + ping_timeout s + eps) (pinger_probe (at_time p s))))
          \<and> reconnect_task (pinger_check (at_time (p + ping_timeout s + eps) (pinger_probe (at_time p s))))
              = Pending)"
proof -
  let ?s1 = "pinger_probe (at_time p s)"
  have f1: "last_ping_time ?s1 = p" "last_pong_time ?s1 = last_pong_time s"
    "ping_timeout ?s1 = ping_timeout s"
    by (simp_all add: pinger_probe_fields at_time_fields)
  have iff: "ping_stale c \<longleftrightarrow>
            last_pong_time c < last_ping_time c \<and> ping_timeout c < clock c - last_ping_time c"
    by (simp add: ping_stale_def)
  have chk: "pinger_check c = (if ping_stale c then spawn_reconnect (close c) else c)"
    by (simp add: pinger_check_def)
  let ?s2 = "(at_time a ?s1)\<lparr>last_pong_time := a\<rparr>"
  have acked: "map_of kvs ''error'' = None \<and> map_of kvs ''result'' = Some r
          \<and> map_of kvs ''id'' = Some (JStr ''ping'') \<and> p \<le> a \<longrightarrow>
          (\<exists>s2. listener_frame (at_time a ?s1) (Decoded (JObj kvs)) = Inr s2
             \<and> s2 = ?s2
             \<and> last_ping_time s2 = p \<and> last_pong_time s2 = a
             \<and> (\<forall>t. \<not> ping_stale (at_time t s2) \<and> pinger_check (at_time t s2) = at_time t s2)
             \<and> \<not> ping_stale (at_time (p + ping_timeout s - eps) s2)
             \<and> pinger_check (at_time (p + ping_timeout s - eps) s2)
                 = at_time (p + ping_timeout s - eps) s2)"
  proof
    assume h: "map_of kvs ''error'' = None \<and> map_of kvs ''result'' = Some r
          \<and> map_of kvs ''id'' = Some (JStr ''ping'') \<and> p \<le> a"
    have "listener_frame (at_time a ?s1) (Decoded (JObj kvs))
        = Inr ((at_time a ?s1)\<lparr>last_pong_time := clock (at_time a ?s1)\<rparr>)"
      using h by (intro ack_received) simp_all
    then have r: "listener_frame (at_time a ?s1) (Decoded (JObj kvs)) = Inr ?s2"
      by (simp add: at_time_fields)
    have ping: "last_ping_time ?s2 = p" and pong: "last_pong_time ?s2 = a"
      by (simp_all add: at_time_fields f1)
    have fresh: "\<not> ping_stale (at_time t ?s2)" for t
      using h by (simp add: ping_stale_def at_time_fields ping pong)
    have same: "pinger_check (at_time t ?s2) = at_time t ?s2" for t
      using fresh [of t] by (rule pinger_check_fresh)
    from r ping pong fresh same
    show "\<exists>s2. listener_frame (at_time a ?s1) (Decoded (JObj kvs)) = Inr s2
             \<and> s2 = ?s2
             \<and> last_ping_time s2 = p \<and> last_pong_time s2 = a
             \<and> (\<forall>t. \<not> ping_stale (at_time t s2) \<and> pinger_check (at_time t s2) = at_time t s2)
             \<and> \<not> ping_stale (at_time (p + ping_timeout s - eps) s2)
             \<and> pinger_check (at_time (p + ping_timeout s - eps) s2)
                 = at_time (p + ping_timeout s - eps) s2"
      by blast
  qed
  let ?c = "at_time (p + ping_timeout s + eps) ?s1"
  have silent: "last_pong_time s < p \<longrightarrow>
          (\<forall>t. ping_stale (at_time t ?s1) \<longleftrightarrow> p + ping_timeout s < t)
          \<and> ping_stale ?c \<and> pinger_check ?c = spawn_reconnect (close ?c)
          \<and> \<not> ws_open (pinger_check ?c) \<and> reconnect_task (pinger_check ?c) = Pending"
  proof
    assume lp: "last_pong_time s < p"
    have thr: "ping_stale (at_time t ?s1) \<longleftrightarrow> p + ping_timeout s < t" for t
      using lp by (auto simp add: ping_stale_def at_time_fields f1)
    have stale: "ping_stale ?c"
      using assms by (simp add: thr)
    from thr stale pinger_check_stale [OF stale]
    show "(\<forall>t. ping_stale (at_time t ?s1) \<longleftrightarrow> p + ping_timeout s < t)
          \<and> ping_stale ?c \<and> pinger_check ?c = spawn_reconnect (close ?c)
          \<and> \<not> ws_open (pinger_check ?c) \<and> reconnect_task (pinger_check ?c) = Pending"
      by blast
  qed
  show ?thesis using iff chk acked silent by blast
qed

theorem keepalive_staleness_witness:
  "(0::real) < 1 \<and> (30::real) \<le> 31 \<and> last_pong_time watching < 30
   \<and> (case listener_frame (at_time 31 (pinger_probe (at_time 30 watching))) pong_frame of
         Inl e \<Rightarrow> False
       | Inr s2 \<Rightarrow> last_ping_time s2 = 30 \<and> last_pong_time s2 = 31
           \<and> \<not> ping_stale (at_time 39 s2) \<and> \<not> ping_stale (at_time 60 s2)
           \<and> pinger_check (at_time 60 s2) = at_time 60 s2)
   \<and> \<not> ping_stale (at_time 39 (pinger_probe (at_time 30 watching)))
   \<and> ping_stale (at_time 41 (pinger_probe (at_time 30 watching)))
   \<and> reconnect_task (pinger_check (at_time 41 (pinger_probe (at_time 30 watching)))) = Pending"
proof -
  have w: "last_pong_time watching = 0" "ping_timeout watching = 10"
    by (simp_all add: watching_state demo_def init_def)
  have e: "(0::real) < 1" by simp
  have t1: "30 + ping_timeout watching - 1 = 39" and t2: "30 + ping_timeout watching + 1 = 41"
    by (simp_all add: w)
  have h1: "(30::real) \<le> 31" by simp
  have h2: "last_pong_time watching < 30" by (simp add: w)
  have k: "map_of [(''result'', JNull), (''id'', JStr ''ping'')] ''error'' = None
     \<and> map_of [(''result'', JNull), (''id'', JStr ''ping'')] ''result'' = Some JNull
     \<and> map_of [(''result'', JNull), (''id'', JStr ''ping'')] ''id'' = Some (JStr ''ping'')"
    by simp
  note inst = keepalive_staleness [OF e, of watching "[(''result'', JNull), (''id'', JStr ''ping'')]"
      JNull 30 31 watching, unfolded t1 t2, folded pong_frame_def]
  from inst k h1 obtain s2 where
    r: "listener_frame (at_time 31 (pinger_probe (at_time 30 watching))) pong_frame = Inr s2"
    and f: "last_ping_time s2 = 30" "last_pong_time s2 = 31"
      "\<not> ping_stale (at_time 39 s2)"
    and g: "\<forall>t. \<not> ping_stale (at_time t s2) \<and> pinger_check (at_time t s2) = at_time t s2"
    by blast
  from g have g60: "\<not> ping_stale (at_time 60 s2)" "pinger_check (at_time 60 s2) = at_time 60 s2"
    by blast+
  have a: "(case listener_frame (at_time 31 (pinger_probe (at_time 30 watching))) pong_frame of
         Inl e \<Rightarrow> False
       | Inr s2 \<Rightarrow> last_ping_time s2 = 30 \<and> last_pong_time s2 = 31
           \<and> \<not> ping_stale (at_time 39 s2) \<and> \<not> ping_stale (at_time 60 s2)
           \<and> pinger_check (at_time 60 s2) = at_time 60 s2)"
    using f g60 by (simp add: r)
  from inst h2 have thr: "\<forall>t. ping_stale (at_time t (pinger_probe (at_time 30 watching)))
        \<longleftrightarrow> 30 + ping_timeout watching < t"
    and b: "ping_stale (at_time 41 (pinger_probe (at_time 30 watching)))"
      "reconnect_task (pinger_check (at_time 41 (pinger_probe (at_time 30 watching)))) = Pending"
    by blast+
  from thr have c: "\<not> ping_stale (at_time 39 (pinger_probe (at_time 30 watching)))"
    by (simp add: w)
  from e h1 h2 a b c show ?thesis by blast
qed

subsection \<open>Frames of unexpected shape\<close>

text \<open>
  A frame that does not decode is skipped, and so is an object that carries none of the
  fields \<^verbatim>\<open>error\<close>, \<^verbatim>\<open>result\<close> and \<^verbatim>\<open>stream\<close>: the loop goes on with the next frame.
\<close>

lemma undecodable_skipped:
  "listener_loop s ((t, Undecodable) # ms) e = listener_loop (s\<lparr>clock := t\<rparr>) ms e"
  by simp

lemma unmarked_object_skipped:
  "map_of kvs ''error'' = None \<Longrightarrow> map_of kvs ''result'' = None \<Longrightarrow>
   map_of kvs ''stream'' = None \<Longrightarrow>
     listener_loop s ((t, Decoded (JObj kvs)) # ms) e = listener_loop (s\<lparr>clock := t\<rparr>) ms e"
  by (simp add: handle_frame_def)

lemma error_text_frame_raises:
  "listener_frame s error_text_frame = Inl AttributeError"
  by (simp add: error_text_frame_def handle_frame_def)

lemma ticker_frame_delivered:
  "listener_frame s ticker_frame =
     Inr (s\<lparr>message_queue := message_queue s @
            [\<lparr>msg_type = ''ticker'', msg_stream = JStr ''btc-usdt@ticker'',
              msg_data = JObj [], msg_time = get_timestamp (clock s)\<rparr>]\<rparr>)"
  by (simp add: ticker_frame_def handle_frame_def process_message_def classify_def WS_TICKER_def)

text \<open>
  Claim C8 at an input where the code departs from it: an error frame whose \<^verbatim>\<open>error\<close>
  field is a string, followed by a ticker frame. Line 141 calls \<^verbatim>\<open>get\<close> on the string,
  the \<^verbatim>\<open>AttributeError\<close> is not a \<^verbatim>\<open>JSONDecodeError\<close>, so it leaves the loop through
  the outer \<^verbatim>\<open>except Exception\<close>. The ticker frame is never handled, although the
  connection is still open; without the first frame it is delivered.
\<close>

theorem error_text_frame_stops_listener:
  "listener_frame (at_time 1 watching) error_text_frame = Inl AttributeError
   \<and> message_queue (listener watching [(1, error_text_frame), (2, ticker_frame)] Stops) = []
   \<and> ws_open (listener watching [(1, error_text_frame), (2, ticker_frame)] Stops)
   \<and> message_queue (listener watching [(2, ticker_frame)] Stops)
       = [\<lparr>msg_type = ''ticker'', msg_stream = JStr ''btc-usdt@ticker'',
           msg_data = JObj [], msg_time = 2000\<rparr>]"
proof -
  have w: "ws watching = Some True" "message_queue watching = []"
    by (simp_all add: watching_state demo_def init_def)
  have a: "listener watching [(1, error_text_frame), (2, ticker_frame)] Stops
      = (listener_failed (watching\<lparr>clock := 1\<rparr>))\<lparr>listener_task := Finished\<rparr>"
    by (simp add: listener_def w error_text_frame_raises)
  have q: "message_queue (listener watching [(1, error_text_frame), (2, ticker_frame)] Stops) = []"
    by (simp add: a listener_failed_fields w)
  have o: "ws_open (listener watching [(1, error_text_frame), (2, ticker_frame)] Stops)"
    by (simp add: a ws_open_def listener_failed_fields w)
  have b: "message_queue (listener watching [(2, ticker_frame)] Stops)
       = [\<lparr>msg_type = ''ticker'', msg_stream = JStr ''btc-usdt@ticker'',
           msg_data = JObj [], msg_time = 2000\<rparr>]"
    by (simp add: listener_def w ticker_frame_delivered transport_lost_def get_timestamp_def)
  show ?thesis
    using q o b by (simp add: error_text_frame_raises)
qed

subsection \<open>Further facts about the operations\<close>

text \<open>The list that stands for the subscription set never repeats an entry.\<close>

lemma subscribe_distinct:
  "distinct (subscribed_streams s) \<Longrightarrow> distinct (subscribed_streams (snd (subscribe s streams)))"
  by (simp add: subscribe_def Let_def send_fields connect_fields distinct_fold_set_add)

lemma unsubscribe_distinct:
  "distinct (subscribed_streams s) \<Longrightarrow> distinct (subscribed_streams (snd (unsubscribe s streams)))"
  by (simp add: unsubscribe_def Let_def send_fields distinct_fold_set_remove)

lemma init_distinct: "distinct (subscribed_streams (init k x i t d))"
  by (simp add: init_def)

text \<open>
  After \<^verbatim>\<open>close\<close> the handle is not open, so a turn of \<^verbatim>\<open>messages\<close> and a waking
  \<^verbatim>\<open>_reconnect\<close> each make a connection attempt.
\<close>

lemma messages_next_after_close:
  "attempts (snd (messages_next (close s))) = Suc (attempts (close s))"
proof -
  have "attempts (snd (messages_next (close s))) = attempts (connect (close s))"
    by (simp add: messages_next_def Let_def ws_open_close attempts_def split: list.splits)
  then show ?thesis by (simp add: connect_attempts ws_open_close)
qed

lemma reconnect_after_close:
  "attempts (reconnect (close s)) = Suc (attempts (close s))"
proof -
  have "attempts (reconnect (close s)) = attempts (connect (close s))"
    by (simp add: reconnect_def attempts_def)
  then show ?thesis by (simp add: connect_attempts ws_open_close)
qed

text \<open>A data frame with a string identifier is put on the queue, classified.\<close>

lemma data_frame_enqueued:
  "map_of kvs ''error'' = None \<Longrightarrow> map_of kvs ''result'' = None \<Longrightarrow>
   map_of kvs ''stream'' = Some (JStr st) \<Longrightarrow>
     \<exists>env. listener_frame s (Decoded (JObj kvs))
              = Inr (s\<lparr>message_queue := message_queue s @ [env]\<rparr>)
         \<and> msg_type env = kind_name (spec_feed_kind st) \<and> msg_stream env = JStr st"
proof -
  assume a: "map_of kvs ''error'' = None" "map_of kvs ''result'' = None"
    "map_of kvs ''stream'' = Some (JStr st)"
  let ?env = "\<lparr>msg_type = kind_name (spec_feed_kind st), msg_stream = JStr st,
      msg_data = (case map_of kvs ''data'' of None \<Rightarrow> JObj [] | Some v \<Rightarrow> v),
      msg_time = get_timestamp (clock s)\<rparr>"
  have "listener_frame s (Decoded (JObj kvs))
      = Inr (s\<lparr>message_queue := message_queue s @ [?env]\<rparr>)"
    using a by (simp add: handle_frame_def process_message_def classify_string)
  moreover have "msg_type ?env = kind_name (spec_feed_kind st) \<and> msg_stream ?env = JStr st"
    by simp
  ultimately show ?thesis by blast
qed

end
